theory Spec2Isabelle
  imports Main
begin

section \<open>Data model of main.go\<close>

text \<open>
  The types of the packages \<open>route\<close>, \<open>config\<close> and \<open>diffmatchpatch\<close> are
  declared outside main.go. They are modelled with the fields main.go reads:
  a \<open>url.URL\<close> with its \<open>Scheme\<close> and \<open>Host\<close> (host:port), a \<open>route.Target\<close> with
  \<open>Opts\<close> (a Go map, nil or not: a missing key reads as absent) and \<open>URL\<close> (a pointer,
  \<open>None\<close> when nil), a \<open>route.Route\<close> with its \<open>Targets\<close>, and \<open>route.Table\<close>, a Go map
  from host to routes, as an association list whose order is the order in which
  \<open>range\<close> happens to visit the map.
\<close>

record url =
  Scheme :: string
  Host :: string

record Target =
  Opts :: "string \<rightharpoonup> string"
  URL :: "url option"

record Route =
  Targets :: "Target list"

type_synonym Table = "(string \<times> Route list) list"

record Config =
  Backend :: string       \<comment> \<open>cfg.Registry.Backend\<close>
  Timeout :: int          \<comment> \<open>cfg.Registry.Timeout, a time.Duration\<close>
  Retry :: int            \<comment> \<open>cfg.Registry.Retry, a time.Duration\<close>
  RoutesFormat :: string  \<comment> \<open>cfg.Log.RoutesFormat\<close>

text \<open>
  What a goroutine does to the world is recorded in a trace, in program order.
  A \<open>log.Printf\<close> call is recorded with its format string and its arguments,
  not rendered.
\<close>

datatype arg = S string | N nat | Q string

datatype effect =
    Log string "arg list"
  | CallParseAliases string
  | Register "string list"
  | CallNewTable string
  | SetTable Table
  | CloseFirst
  | SetHTML string
  | CloseProxy string
  | StartListener string
  | Sleep int

section \<open>watchNoRouteHTML\<close>

text \<open>
  \<open>noroute.GetHTML\<close> and \<open>noroute.SetHTML\<close> read and replace one process-wide cell;
  watchNoRouteHTML is its only writer. The state is the cell and the trace; one
  call of \<open>noRouteStep\<close> is one iteration of the loop, for the value \<open>next\<close>
  received from the stream.
\<close>

record nstate =
  html :: string
  ntrace :: "effect list"

definition noRouteStep :: "string \<Rightarrow> nstate \<Rightarrow> nstate" where
  "noRouteStep next st =
     (if next = html st then st
      else st\<lparr>html := next,
              ntrace := ntrace st @ [SetHTML next,
                 (if next = '''' then Log ''[INFO] Unset noroute HTML'' []
                  else Log ''[INFO] Set noroute HTML (%d bytes)'' [N (length next)])]\<rparr>)"

fun watchNoRouteHTML :: "string list \<Rightarrow> nstate \<Rightarrow> nstate" where
  "watchNoRouteHTML [] st = st"
| "watchNoRouteHTML (next # rest) st = watchNoRouteHTML rest (noRouteStep next st)"

section \<open>lookupHostMatcher\<close>

text \<open>
  \<open>route.GetTable().LookupHost(host, pick)\<close> is a parameter: a function from the
  host name to the target picked, \<open>None\<close> for a nil result.
\<close>

definition lookupHostMatcher :: "(string \<Rightarrow> Target option) \<Rightarrow> string \<Rightarrow> bool" where
  "lookupHostMatcher LookupHost host =
     (case LookupHost host of
        None \<Rightarrow> False
      | Some t \<Rightarrow>
          (let (proto, ok) = (case Opts t ''proto'' of Some p \<Rightarrow> (p, True) | None \<Rightarrow> ('''', False));
               proto = (if \<not> ok \<and> URL t \<noteq> None then Scheme (the (URL t)) else proto)
           in ''tcp'' = proto))"

text \<open>
  The effective protocol in the words of the specification: the \<open>proto\<close> option
  when present, otherwise the scheme of the target's URL.
\<close>

definition effectiveProto :: "Target \<Rightarrow> string option" where
  "effectiveProto t =
     (case Opts t ''proto'' of Some p \<Rightarrow> Some p | None \<Rightarrow> map_option Scheme (URL t))"

text \<open>
  Modelled from the spec: \<open>proxy.ListenAndServeHTTPSTCPSNI\<close>, which is given the
  matcher and is not part of main.go. On a connection whose ClientHello carries
  the server name \<open>host\<close> it hands the raw connection to the TCP+SNI proxy when the
  matcher holds, and otherwise terminates TLS and passes the connection to the
  HTTP proxy.
\<close>

datatype handler = TCPSNIProxy | HTTPProxy

definition dispatchHTTPSTCPSNI :: "(string \<Rightarrow> bool) \<Rightarrow> string \<Rightarrow> handler" where
  "dispatchHTTPSTCPSNI matcher host = (if matcher host then TCPSNIProxy else HTTPProxy)"

section \<open>logRoutes\<close>

text \<open>
  \<open>dmp.New().DiffMain(last, next, true)\<close>, \<open>strings.TrimSpace\<close>, \<open>route.ParseAliases\<close>,
  \<open>route.NewTable\<close> and \<open>Table.Dump\<close> are library functions called by main.go; they
  are parameters of the model. An \<open>error\<close> is its message.
\<close>

datatype Operation = DiffDelete | DiffInsert | DiffEqual

record Diff =
  Type :: Operation
  Text :: string

record externals =
  ParseAliases :: "string \<Rightarrow> string list \<times> string option"
  NewTable :: "string \<Rightarrow> string + Table"
  DiffMain :: "string \<Rightarrow> string \<Rightarrow> Diff list"
  TrimSpace :: "string \<Rightarrow> string"
  Dump :: "Table \<Rightarrow> string"

abbreviation NL :: char where
  "NL \<equiv> CHR 0x0A"

text \<open>\<open>strings.Replace(t, "\n", new, -1)\<close>: every newline of \<open>t\<close> becomes \<open>new\<close>.\<close>

definition replaceNL :: "string \<Rightarrow> string \<Rightarrow> string" where
  "replaceNL t new = concat (map (\<lambda>c. if c = NL then new else [c]) t)"

text \<open>
  The parameters \<open>last\<close> and \<open>next\<close> of logRoutes are written \<open>last0\<close> and \<open>next0\<close>.
  The closure \<open>fmtDiff\<close>; the result is what the buffer \<open>b\<close> holds at the end.\<close>

fun fmtDiff :: "(string \<Rightarrow> string) \<Rightarrow> Diff list \<Rightarrow> string" where
  "fmtDiff trim [] = ''''"
| "fmtDiff trim (d # diffs) =
     (let t = trim (Text d) in
      if t = '''' then fmtDiff trim diffs
      else (case Type d of
              DiffDelete \<Rightarrow> ''- '' @ replaceNL t (NL # ''- '')
            | DiffInsert \<Rightarrow> ''+ '' @ replaceNL t (NL # ''+ '')
            | DiffEqual \<Rightarrow> '''') @ fmtDiff trim diffs)"

definition defFormat :: string where
  "defFormat = ''delta''"

function logRoutes :: "externals \<Rightarrow> Table \<Rightarrow> string \<Rightarrow> string \<Rightarrow> string \<Rightarrow> effect list" where
  "logRoutes x t last0 next0 format =
     (if format = ''detail'' then
        [Log (''[INFO] Updated config to'' @ NL # ''%s'') [S (Dump x t)]]
      else if format = ''delta'' then
        (let delta = fmtDiff (TrimSpace x) (DiffMain x last0 next0) in
         if delta \<noteq> '''' then [Log (''[INFO] Config updates'' @ NL # ''%s'') [S delta]] else [])
      else if format = ''all'' then
        [Log (''[INFO] Updated config to'' @ NL # ''%s'') [S next0]]
      else
        Log ''[WARN] Invalid route format %q. Defaulting to %q'' [Q format, Q defFormat]
          # logRoutes x t last0 next0 defFormat)"
  by pat_completeness auto
termination
  by (relation "measure (\<lambda>(x, t, last0, next0, format). if format = ''delta'' then 0 else 1)")
     (auto simp: defFormat_def)

declare logRoutes.simps [simp del]

section \<open>watchBackend\<close>

text \<open>
  The local variables of watchBackend, the \<open>sync.Once\<close> (\<open>once\<close> is true after its
  first \<open>Do\<close>), the table register that \<open>route.SetTable\<close> writes (\<open>None\<close> until this
  goroutine has published) and the trace. The buffer \<open>tableBuffer\<close> is reset and
  refilled at every iteration before it is read, so \<open>route.NewTable\<close> is called on
  the text \<open>nextTable\<close>.
\<close>

record wstate =
  nextTable :: string
  lastTable :: string
  svccfg :: string
  mancfg :: string
  customBE :: string
  once :: bool
  activeTable :: "Table option"
  trace :: "effect list"

definition init :: wstate where
  "init = \<lparr>nextTable = '''', lastTable = '''', svccfg = '''', mancfg = '''', customBE = '''',
           once = False, activeTable = None, trace = []\<rparr>"

text \<open>A message on the services stream or on the manual stream, in the order \<open>select\<close> took them.\<close>

datatype event = Svc string | Man string

definition emit :: "effect list \<Rightarrow> wstate \<Rightarrow> wstate" where
  "emit es st = st\<lparr>trace := trace st @ es\<rparr>"

text \<open>\<open>once.Do(func() { close(first) })\<close>\<close>

definition onceDo :: "wstate \<Rightarrow> wstate" where
  "onceDo st = (if once st then st else emit [CloseFirst] (st\<lparr>once := True\<rparr>))"

text \<open>One iteration of the loop of the custom back end, for the message received.\<close>

definition customStep :: "string \<Rightarrow> wstate \<Rightarrow> wstate" where
  "customStep msg st0 =
     (let st1 = st0\<lparr>customBE := msg\<rparr>;
          st2 = (if customBE st1 \<noteq> ''OK''
                 then emit [Log ''[ERROR] error during update from custom back end - %s''
                              [S (customBE st1)]] st1
                 else st1)
      in onceDo st2)"

text \<open>One iteration of the loop of all other back ends, for the event received.\<close>

definition defaultStep :: "externals \<Rightarrow> Config \<Rightarrow> event \<Rightarrow> wstate \<Rightarrow> wstate" where
  "defaultStep x cfg ev st0 =
     (let st1 = (case ev of Svc s \<Rightarrow> st0\<lparr>svccfg := s\<rparr> | Man m \<Rightarrow> st0\<lparr>mancfg := m\<rparr>);
          st2 = st1\<lparr>nextTable := svccfg st1 @ [NL] @ mancfg st1\<rparr>
      in if nextTable st2 = lastTable st2 then st2
         else
           (let (aliases, err) = ParseAliases x (nextTable st2);
                st3 = emit (CallParseAliases (nextTable st2)
                            # (case err of Some e \<Rightarrow> [Log ''[WARN]: %s'' [S e]] | None \<Rightarrow> [])) st2;
                st4 = emit [Register aliases, CallNewTable (nextTable st3)] st3
            in case NewTable x (nextTable st4) of
                 Inl e \<Rightarrow> emit [Log ''[WARN] %s'' [S e]] st4
               | Inr t \<Rightarrow>
                   (let st5 = emit [SetTable t] (st4\<lparr>activeTable := Some t\<rparr>);
                        st6 = emit (logRoutes x t (lastTable st5) (nextTable st5) (RoutesFormat cfg)) st5;
                        st7 = st6\<lparr>lastTable := nextTable st6\<rparr>
                    in onceDo st7)))"

fun customLoop :: "string list \<Rightarrow> wstate \<Rightarrow> wstate" where
  "customLoop [] st = st"
| "customLoop (msg # msgs) st = customLoop msgs (customStep msg st)"

fun defaultLoop :: "externals \<Rightarrow> Config \<Rightarrow> event list \<Rightarrow> wstate \<Rightarrow> wstate" where
  "defaultLoop x cfg [] st = st"
| "defaultLoop x cfg (ev # evs) st = defaultLoop x cfg evs (defaultStep x cfg ev st)"

text \<open>
  The custom back end watches the services stream only: of the events, it
  receives the messages of that stream.
\<close>

fun svcMessages :: "event list \<Rightarrow> string list" where
  "svcMessages [] = []"
| "svcMessages (Svc s # evs) = s # svcMessages evs"
| "svcMessages (Man m # evs) = svcMessages evs"

definition watchBackend :: "externals \<Rightarrow> Config \<Rightarrow> event list \<Rightarrow> wstate" where
  "watchBackend x cfg evs =
     (if Backend cfg = ''custom'' then customLoop (svcMessages evs) init
      else defaultLoop x cfg evs init)"

section \<open>initBackend\<close>

text \<open>
  Time is a clock of type \<open>int\<close> in the unit of \<open>time.Duration\<close>. What the world
  does at one iteration of the loop is an \<open>attempt\<close>: the error of \<open>NewBackend\<close>,
  the error of \<open>Register(nil)\<close> (called only when the back end was created), the
  time the iteration took up to the reading of the clock, the time by which
  \<open>time.Sleep\<close> overslept, and the shutdown flag as read after the sleep.
  \<open>time.Sleep d\<close> returns at once for \<open>d \<le> 0\<close>. \<open>exit.Fatal\<close> and \<open>exit.Exit\<close> end the
  process, the first with its message and the second with its exit code;
  \<open>Pending\<close> is a loop still running when the observed attempts are used up.
\<close>

record attempt =
  newBackendErr :: "string option"
  registerErr :: "string option"
  took :: nat
  overslept :: nat
  shuttingDown :: bool

datatype result = Ready | Fatal string | Exit nat | Pending

definition knownBackend :: "string \<Rightarrow> bool" where
  "knownBackend b = (b = ''file'' \<or> b = ''static'' \<or> b = ''consul'' \<or> b = ''custom'')"

fun initLoop :: "Config \<Rightarrow> int \<Rightarrow> int \<Rightarrow> attempt list \<Rightarrow> effect list \<times> result" where
  "initLoop cfg deadline now as =
     (if \<not> knownBackend (Backend cfg) then
        ([], Fatal (''[FATAL] Unknown registry backend '' @ Backend cfg))
      else
        (case as of
           [] \<Rightarrow> ([], Pending)
         | a # rest \<Rightarrow>
             (let err = (case newBackendErr a of None \<Rightarrow> registerErr a | Some e \<Rightarrow> Some e) in
              case err of
                None \<Rightarrow> ([], Ready)
              | Some e \<Rightarrow>
                  (let warn = Log ''[WARN] Error initializing backend. '' [S e];
                       now1 = now + int (took a)
                   in if now1 > deadline then
                        ([warn], Fatal ''[FATAL] Timeout registering backend.'')
                      else
                        (let now2 = now1 + max 0 (Retry cfg) + int (overslept a) in
                         if shuttingDown a then ([warn, Sleep (Retry cfg)], Exit 1)
                         else (let (es, r) = initLoop cfg deadline now2 rest
                               in (warn # Sleep (Retry cfg) # es, r)))))))"

declare initLoop.simps [simp del]

definition initBackend :: "Config \<Rightarrow> int \<Rightarrow> attempt list \<Rightarrow> effect list \<times> result" where
  "initBackend cfg now as = initLoop cfg (now + Timeout cfg) now as"

section \<open>startServers: the tcp-dynamic listener\<close>

text \<open>\<open>strings.Split(s, ":")\<close> for a separator of one character.\<close>

fun splitOn :: "char \<Rightarrow> string \<Rightarrow> string list" where
  "splitOn c [] = [[]]"
| "splitOn c (x # xs) =
     (if x = c then [] # splitOn c xs
      else (case splitOn c xs of [] \<Rightarrow> [[x]] | y # ys \<Rightarrow> (x # y) # ys))"

text \<open>\<open>strings.Split(target, ":")[1]\<close>; \<open>None\<close> is the panic of an index out of range.\<close>

definition secondField :: "string \<Rightarrow> string option" where
  "secondField target = (case splitOn CHR '':'' target of a # b # rest \<Rightarrow> Some b | _ \<Rightarrow> None)"

text \<open>\<open>unique\<close>: the map \<open>keys\<close> is the set of its keys.\<close>

fun uniqueLoop :: "string list \<Rightarrow> string set \<Rightarrow> string list \<Rightarrow> string list" where
  "uniqueLoop [] keys list = list"
| "uniqueLoop (entry # strSlice) keys list =
     (if entry \<notin> keys then uniqueLoop strSlice (insert entry keys) (list @ [entry])
      else uniqueLoop strSlice keys list)"

definition unique :: "string list \<Rightarrow> string list" where
  "unique strSlice = uniqueLoop strSlice {} []"

text \<open>\<open>difference\<close>: the elements of \<open>a\<close> that are not in \<open>b\<close>; \<open>mb\<close> is the set of \<open>b\<close>.\<close>

definition difference :: "string list \<Rightarrow> string list \<Rightarrow> string list" where
  "difference a b = (let mb = set b in filter (\<lambda>x. x \<notin> mb) a)"

text \<open>
  \<open>tableSchemes\<close>: \<open>target.URL.Scheme\<close> panics on a nil URL, which is \<open>None\<close> here.
\<close>

fun targetsLoop :: "Target list \<Rightarrow> string list \<Rightarrow> string list option" where
  "targetsLoop [] schemes = Some schemes"
| "targetsLoop (target # targets) schemes =
     (case URL target of
        None \<Rightarrow> None
      | Some u \<Rightarrow> targetsLoop targets (schemes @ [Scheme u]))"

fun routesLoop :: "Route list \<Rightarrow> string list \<Rightarrow> string list option" where
  "routesLoop [] schemes = Some schemes"
| "routesLoop (rt # r) schemes =
     (case targetsLoop (Targets rt) schemes of
        None \<Rightarrow> None
      | Some schemes' \<Rightarrow> routesLoop r schemes')"

definition tableSchemes :: "Route list \<Rightarrow> string list option" where
  "tableSchemes r = map_option unique (routesLoop r [])"

text \<open>
  The loop over the table. The \<open>strings.Builder\<close> is empty at the head of every
  iteration (it is reset after each use), so the port is \<open>":"\<close> followed by the
  second field of the key.
\<close>

fun scanLoop :: "Table \<Rightarrow> string list \<Rightarrow> string list option" where
  "scanLoop [] ports = Some ports"
| "scanLoop ((target, rts) # table) ports =
     (if CHR '':'' \<in> set target then
        (case secondField target of
           None \<Rightarrow> None
         | Some p \<Rightarrow>
             (case tableSchemes rts of
                None \<Rightarrow> None
              | Some schemes \<Rightarrow>
                  scanLoop table
                    (unique (if length schemes = 1 \<and> schemes ! 0 = ''tcp''
                             then ports @ [CHR '':'' # p] else ports))))
      else scanLoop table (unique ports))"

text \<open>
  One iteration of the refresh loop, after the sleep: \<open>table\<close> is what
  \<open>route.GetTable()\<close> returns, and \<open>free port\<close> says whether \<open>net.Listen("tcp", port)\<close>
  succeeds. \<open>StartListener\<close> is the goroutine of \<open>proxy.ListenAndServeTCP\<close> on the port.
\<close>

record dstate =
  lastPorts :: "string list"
  dtrace :: "effect list"

definition closeEffects :: "string list \<Rightarrow> effect list" where
  "closeEffects ps =
     concat (map (\<lambda>port. [Log ''[DEBUG] Dynamic TCP listener on %s eligable for termination'' [S port],
                          CloseProxy port]) ps)"

definition listenEffects :: "(string \<Rightarrow> bool) \<Rightarrow> string list \<Rightarrow> effect list" where
  "listenEffects free ps =
     concat (map (\<lambda>port. if \<not> free port then [Log ''[DEBUG] Dynamic TCP port %s in use'' [S port]]
                          else [Log ''[INFO] Starting dynamic TCP listener on port %s '' [S port],
                                StartListener port]) ps)"

definition dynamicTick :: "Table \<Rightarrow> (string \<Rightarrow> bool) \<Rightarrow> dstate \<Rightarrow> dstate option" where
  "dynamicTick table free st =
     (case scanLoop table [] of
        None \<Rightarrow> None
      | Some ports \<Rightarrow>
          Some \<lparr>lastPorts = ports,
                dtrace = dtrace st @ closeEffects (difference (lastPorts st) ports)
                           @ listenEffects free ports\<rparr>)"

fun dynamicLoop :: "(Table \<times> (string \<Rightarrow> bool)) list \<Rightarrow> dstate \<Rightarrow> dstate option" where
  "dynamicLoop [] st = Some st"
| "dynamicLoop ((table, free) # ticks) st =
     (case dynamicTick table free st of
        None \<Rightarrow> None
      | Some st' \<Rightarrow> dynamicLoop ticks st')"

definition dinit :: dstate where
  "dinit = \<lparr>lastPorts = [], dtrace = []\<rparr>"

text \<open>The ports on which the tick started a listener, and those it closed.\<close>

fun startedPorts :: "effect list \<Rightarrow> string list" where
  "startedPorts [] = []"
| "startedPorts (StartListener p # es) = p # startedPorts es"
| "startedPorts (e # es) = startedPorts es"

fun closedPorts :: "effect list \<Rightarrow> string list" where
  "closedPorts [] = []"
| "closedPorts (CloseProxy p # es) = p # closedPorts es"
| "closedPorts (e # es) = closedPorts es"

text \<open>
  Modelled from the spec: \<open>proxy.CloseProxy\<close> and \<open>proxy.ListenAndServeTCP\<close>, which
  are not part of main.go. The first closes the dynamic listener on the port, the
  second keeps a listener open on it; \<open>listeners\<close> is the set of ports with an
  open dynamic listener after the effects of a trace.
\<close>

fun listeners :: "effect list \<Rightarrow> string set \<Rightarrow> string set" where
  "listeners [] ls = ls"
| "listeners (StartListener p # es) ls = listeners es (insert p ls)"
| "listeners (CloseProxy p # es) ls = listeners es (ls - {p})"
| "listeners (e # es) ls = listeners es ls"

text \<open>
  The ports in the words of the specification: the distinct backend ports of
  the targets whose URL has the scheme \<open>tcp\<close>. The port of a URL is the text
  after the last colon of its host.
\<close>

definition backendPort :: "url \<Rightarrow> string" where
  "backendPort u = CHR '':'' # last (splitOn CHR '':'' (Host u))"

definition tcpBackendPorts :: "Table \<Rightarrow> string list" where
  "tcpBackendPorts table =
     remdups (concat (map (\<lambda>(host, rts).
       concat (map (\<lambda>rt.
         concat (map (\<lambda>t. case URL t of
                             None \<Rightarrow> []
                           | Some u \<Rightarrow> if Scheme u = ''tcp'' then [backendPort u] else [])
                     (Targets rt))) rts)) table))"

section \<open>Reading the traces\<close>

text \<open>
  The combined text of an iteration of the merger, in the words of the
  specification: the latest service text, a newline, the latest manual text,
  where the event received replaces the text of its stream.
\<close>

definition combined :: "event \<Rightarrow> wstate \<Rightarrow> string" where
  "combined ev st =
     (case ev of Svc s \<Rightarrow> s | Man m \<Rightarrow> svccfg st) @ [NL] @ (case ev of Svc s \<Rightarrow> mancfg st | Man m \<Rightarrow> m)"

text \<open>The warning logged when \<open>route.ParseAliases\<close> returns an error.\<close>

definition aliasWarning :: "string option \<Rightarrow> effect list" where
  "aliasWarning err = (case err of Some e \<Rightarrow> [Log ''[WARN]: %s'' [S e]] | None \<Rightarrow> [])"

text \<open>The error logged by the loop of the custom back end for a message other than OK.\<close>

definition customError :: "string \<Rightarrow> effect list" where
  "customError msg =
     (if msg \<noteq> ''OK'' then [Log ''[ERROR] error during update from custom back end - %s'' [S msg]] else [])"

fun isLog :: "effect \<Rightarrow> bool" where
  "isLog (Log f as) = True"
| "isLog e = False"

text \<open>
  The combined texts that were published, in order: every \<open>SetTable\<close> of a trace
  publishes the table built from the text of the latest \<open>CallNewTable\<close> before it
  (\<open>cur\<close>, the text parsed last).
\<close>

fun pubTexts :: "effect list \<Rightarrow> string \<Rightarrow> string list" where
  "pubTexts [] cur = []"
| "pubTexts (CallNewTable s # es) cur = pubTexts es s"
| "pubTexts (SetTable t # es) cur = cur # pubTexts es cur"
| "pubTexts (e # es) cur = pubTexts es cur"

fun parsedText :: "effect list \<Rightarrow> string \<Rightarrow> string" where
  "parsedText [] cur = cur"
| "parsedText (CallNewTable s # es) cur = parsedText es s"
| "parsedText (e # es) cur = parsedText es cur"

definition publishedTexts :: "effect list \<Rightarrow> string list" where
  "publishedTexts es = pubTexts es ''''"

text \<open>How often the channel \<open>first\<close> was closed, and the trace up to its first close.\<close>

definition closes :: "effect list \<Rightarrow> nat" where
  "closes es = count_list es CloseFirst"

definition beforeFirst :: "effect list \<Rightarrow> effect list" where
  "beforeFirst es = takeWhile (\<lambda>e. e \<noteq> CloseFirst) es"

text \<open>The effects an iteration added to a trace.\<close>

definition emitted :: "effect list \<Rightarrow> effect list \<Rightarrow> effect list" where
  "emitted before after = drop (length before) after"

text \<open>The invariant of the merger loop.\<close>

definition winv :: "wstate \<Rightarrow> bool" where
  "winv st \<longleftrightarrow>
     distinct_adj (publishedTexts (trace st)) \<and>
     (publishedTexts (trace st) \<noteq> [] \<longrightarrow> last (publishedTexts (trace st)) = lastTable st) \<and>
     (once st \<longleftrightarrow> publishedTexts (trace st) \<noteq> []) \<and>
     closes (trace st) = (if once st then 1 else 0) \<and>
     (once st \<longrightarrow> length (publishedTexts (beforeFirst (trace st))) = 1)"

text \<open>
  Whether the lookup of a host yields a target whose effective protocol is \<open>tcp\<close>.
\<close>

definition resolvesToTcp :: "(string \<Rightarrow> Target option) \<Rightarrow> string \<Rightarrow> bool" where
  "resolvesToTcp LookupHost host =
     (case LookupHost host of None \<Rightarrow> False | Some t \<Rightarrow> effectiveProto t = Some ''tcp'')"

section \<open>Concrete inputs\<close>

definition ninit :: nstate where
  "ninit = \<lparr>html = '''', ntrace = []\<rparr>"

definition asciiTrim :: "string \<Rightarrow> string" where
  "asciiTrim s =
     rev (dropWhile (\<lambda>c. c = CHR '' '' \<or> c = NL) (rev (dropWhile (\<lambda>c. c = CHR '' '' \<or> c = NL) s)))"

definition exampleExt :: externals where
  "exampleExt =
     \<lparr>ParseAliases = (\<lambda>s. ([''www''], None)),
      NewTable = (\<lambda>s. if s = ''bad'' @ [NL] then Inl ''syntax error'' else Inr [(s, [])]),
      DiffMain = (\<lambda>a b. [\<lparr>Type = DiffDelete, Text = a\<rparr>, \<lparr>Type = DiffInsert, Text = b\<rparr>]),
      TrimSpace = asciiTrim,
      Dump = (\<lambda>t. concat (map fst t))\<rparr>"

definition exampleCfg :: Config where
  "exampleCfg = \<lparr>Backend = ''consul'', Timeout = 10, Retry = 3, RoutesFormat = ''all''\<rparr>"

definition customCfg :: Config where
  "customCfg = \<lparr>Backend = ''custom'', Timeout = 10, Retry = 3, RoutesFormat = ''all''\<rparr>"

definition exampleLookup :: "string \<Rightarrow> Target option" where
  "exampleLookup host =
     (if host = ''db.example.com'' then
        Some \<lparr>Opts = Map.empty, URL = Some \<lparr>Scheme = ''tcp'', Host = ''10.0.0.6:5432''\<rparr>\<rparr>
      else if host = ''web.example.com'' then
        Some \<lparr>Opts = [''proto'' \<mapsto> ''https''], URL = Some \<lparr>Scheme = ''tcp'', Host = ''10.0.0.1:443''\<rparr>\<rparr>
      else if host = ''raw.example.com'' then
        Some \<lparr>Opts = [''proto'' \<mapsto> ''tcp''], URL = None\<rparr>
      else None)"

section \<open>One iteration of the merger\<close>

lemmas ex_defs = watchBackend_def defaultStep_def customStep_def onceDo_def emit_def init_def
  exampleExt_def exampleCfg_def customCfg_def logRoutes.simps publishedTexts_def closes_def
  combined_def beforeFirst_def aliasWarning_def customError_def


lemma defaultStep_skip:
  "combined ev st = lastTable st \<Longrightarrow>
   defaultStep x cfg ev st =
     (case ev of Svc s \<Rightarrow> st\<lparr>svccfg := s\<rparr> | Man m \<Rightarrow> st\<lparr>mancfg := m\<rparr>)\<lparr>nextTable := lastTable st\<rparr>"
  by (cases ev) (auto simp: defaultStep_def combined_def Let_def)

lemma defaultStep_fail:
  "combined ev st \<noteq> lastTable st \<Longrightarrow> NewTable x (combined ev st) = Inl e \<Longrightarrow>
   defaultStep x cfg ev st =
     (case ev of Svc s \<Rightarrow> st\<lparr>svccfg := s\<rparr> | Man m \<Rightarrow> st\<lparr>mancfg := m\<rparr>)
       \<lparr>nextTable := combined ev st,
        trace := trace st @ CallParseAliases (combined ev st)
                  # aliasWarning (snd (ParseAliases x (combined ev st)))
                  @ [Register (fst (ParseAliases x (combined ev st))), CallNewTable (combined ev st),
                     Log ''[WARN] %s'' [S e]]\<rparr>"
  by (cases ev)
     (auto simp: defaultStep_def combined_def Let_def emit_def aliasWarning_def
           split: prod.splits option.splits)

lemma defaultStep_publish:
  "combined ev st \<noteq> lastTable st \<Longrightarrow> NewTable x (combined ev st) = Inr t \<Longrightarrow>
   defaultStep x cfg ev st =
     (case ev of Svc s \<Rightarrow> st\<lparr>svccfg := s\<rparr> | Man m \<Rightarrow> st\<lparr>mancfg := m\<rparr>)
       \<lparr>nextTable := combined ev st, lastTable := combined ev st, activeTable := Some t, once := True,
        trace := trace st @ CallParseAliases (combined ev st)
                  # aliasWarning (snd (ParseAliases x (combined ev st)))
                  @ [Register (fst (ParseAliases x (combined ev st))), CallNewTable (combined ev st),
                     SetTable t]
                  @ logRoutes x t (lastTable st) (combined ev st) (RoutesFormat cfg)
                  @ (if once st then [] else [CloseFirst])\<rparr>"
  by (cases ev)
     (auto simp: defaultStep_def combined_def Let_def emit_def onceDo_def aliasWarning_def
           split: prod.splits option.splits)

subsection \<open>What the traces hold\<close>

lemma logRoutes_isLog: "list_all isLog (logRoutes x t l n f)"
proof (induction x t l n f rule: logRoutes.induct)
  case (1 x t last0 next0 format)
  then show ?case
    by (subst logRoutes.simps) (auto simp: Let_def)
qed

lemma aliasWarning_isLog: "list_all isLog (aliasWarning err)"
  by (cases err) (auto simp: aliasWarning_def)

lemma pubTexts_append: "pubTexts (es @ fs) cur = pubTexts es cur @ pubTexts fs (parsedText es cur)"
  by (induction es cur rule: pubTexts.induct) auto

lemma pubTexts_logs: "list_all isLog es \<Longrightarrow> pubTexts es cur = []"
  by (induction es cur rule: pubTexts.induct) auto

lemma parsedText_logs: "list_all isLog es \<Longrightarrow> parsedText es cur = cur"
  by (induction es cur rule: parsedText.induct) auto

lemma count_logs: "list_all isLog es \<Longrightarrow> count_list es CloseFirst = 0"
  by (induction es) auto

lemma isLog_not_close: "list_all isLog es \<Longrightarrow> CloseFirst \<notin> set es"
  by (induction es) auto

lemma closes_append: "closes (es @ fs) = closes es + closes fs"
  by (simp add: closes_def)

lemma closes_zero: "closes es = 0 \<Longrightarrow> CloseFirst \<notin> set es"
  unfolding closes_def by (induction es) (auto split: if_splits)

lemma closes_pos: "closes es = 1 \<Longrightarrow> CloseFirst \<in> set es"
  unfolding closes_def by (induction es) (auto split: if_splits)

lemma beforeFirst_keep: "CloseFirst \<in> set es \<Longrightarrow> beforeFirst (es @ fs) = beforeFirst es"
  unfolding beforeFirst_def by (simp add: takeWhile_append1)

lemma beforeFirst_snoc: "CloseFirst \<notin> set es \<Longrightarrow> beforeFirst (es @ [CloseFirst]) = es"
  unfolding beforeFirst_def by (induction es) auto



lemma step_texts_fail:
  assumes "combined ev st \<noteq> lastTable st" "NewTable x (combined ev st) = Inl e"
  shows "publishedTexts (trace (defaultStep x cfg ev st)) = publishedTexts (trace st)"
  using assms
  by (cases ev)
     (simp_all add: defaultStep_fail publishedTexts_def pubTexts_append pubTexts_logs
        aliasWarning_isLog)

lemma step_texts_publish:
  assumes "combined ev st \<noteq> lastTable st" "NewTable x (combined ev st) = Inr t"
  shows "publishedTexts (trace (defaultStep x cfg ev st)) = publishedTexts (trace st) @ [combined ev st]"
  using assms
  by (cases ev)
     (simp_all add: defaultStep_publish publishedTexts_def pubTexts_append pubTexts_logs
        parsedText_logs aliasWarning_isLog logRoutes_isLog)


subsection \<open>The invariant of the merger loop\<close>

lemma winv_init: "winv init"
  by (simp add: winv_def init_def publishedTexts_def closes_def beforeFirst_def)

lemma winv_step:
  assumes "winv st"
  shows "winv (defaultStep x cfg ev st)"
proof (cases "combined ev st = lastTable st")
  case True
  then show ?thesis using assms
    by (cases ev) (simp_all add: defaultStep_skip winv_def)
next
  case neq: False
  show ?thesis
  proof (cases "NewTable x (combined ev st)")
    case (Inl e)
    have t: "publishedTexts (trace (defaultStep x cfg ev st)) = publishedTexts (trace st)"
      using step_texts_fail [OF neq Inl] .
    have s: "lastTable (defaultStep x cfg ev st) = lastTable st"
            "once (defaultStep x cfg ev st) = once st"
      using neq Inl by (cases ev; simp add: defaultStep_fail)+
    have c: "closes (trace (defaultStep x cfg ev st)) = closes (trace st)"
      using neq Inl aliasWarning_isLog [of "snd (ParseAliases x (combined ev st))"]
      by (cases ev) (simp_all add: defaultStep_fail closes_def count_logs)
    have b: "beforeFirst (trace (defaultStep x cfg ev st)) = beforeFirst (trace st)" if "once st"
    proof -
      have "CloseFirst \<in> set (trace st)"
        using that assms closes_pos by (simp add: winv_def)
      then show ?thesis using neq Inl
        by (cases ev) (simp_all add: defaultStep_fail beforeFirst_keep)
    qed
    show ?thesis using assms t s c b by (simp add: winv_def)
  next
    case (Inr t)
    let ?st' = "defaultStep x cfg ev st"
    define pre where "pre = CallParseAliases (combined ev st)
        # aliasWarning (snd (ParseAliases x (combined ev st)))
        @ [Register (fst (ParseAliases x (combined ev st))), CallNewTable (combined ev st), SetTable t]
        @ logRoutes x t (lastTable st) (combined ev st) (RoutesFormat cfg)"
    have tr: "trace ?st' = trace st @ pre @ (if once st then [] else [CloseFirst])"
      using neq Inr unfolding pre_def by (cases ev) (simp_all add: defaultStep_publish)
    have tx: "publishedTexts (trace ?st') = publishedTexts (trace st) @ [combined ev st]"
      using step_texts_publish [OF neq Inr] .
    have s: "lastTable ?st' = combined ev st" "once ?st'"
      using neq Inr by (cases ev; simp add: defaultStep_publish)+
    have nopre: "CloseFirst \<notin> set pre"
      using isLog_not_close [OF aliasWarning_isLog] isLog_not_close [OF logRoutes_isLog]
      unfolding pre_def by simp
    have cpre: "closes pre = 0"
      using nopre count_list_0_iff [of pre CloseFirst] unfolding closes_def by blast
    have c: "closes (trace ?st') = 1"
      using assms cpre unfolding tr winv_def by (simp add: closes_append) (simp add: closes_def)
    have d: "distinct_adj (publishedTexts (trace ?st'))"
      using assms neq unfolding tx winv_def by (auto simp: distinct_adj_append_iff)
    have b: "length (publishedTexts (beforeFirst (trace ?st'))) = 1"
    proof (cases "once st")
      case True
      then have "CloseFirst \<in> set (trace st)"
        using assms closes_pos by (simp add: winv_def)
      then have "beforeFirst (trace ?st') = beforeFirst (trace st)"
        unfolding tr by (rule beforeFirst_keep)
      then show ?thesis using assms True by (simp add: winv_def)
    next
      case False
      then have no: "CloseFirst \<notin> set (trace st)" and e: "publishedTexts (trace st) = []"
        using assms closes_zero by (simp_all add: winv_def)
      have "trace ?st' = (trace st @ pre) @ [CloseFirst]"
        using tr False by simp
      moreover have "CloseFirst \<notin> set (trace st @ pre)"
        using no nopre by simp
      ultimately have bf: "beforeFirst (trace ?st') = trace st @ pre"
        using beforeFirst_snoc by metis
      have "publishedTexts (trace st @ pre @ [CloseFirst]) = publishedTexts (trace st @ pre)"
        by (simp add: publishedTexts_def pubTexts_append)
      then have "publishedTexts (trace st @ pre) = [combined ev st]"
        using tx tr False e by simp
      then show ?thesis using bf by simp
    qed
    show ?thesis using s c d b tx by (simp add: winv_def)
  qed
qed

lemma winv_loop: "winv st \<Longrightarrow> winv (defaultLoop x cfg evs st)"
  by (induction evs arbitrary: st) (simp_all add: winv_step)

lemma winv_watch: "Backend cfg \<noteq> ''custom'' \<Longrightarrow> winv (watchBackend x cfg evs)"
  by (simp add: watchBackend_def winv_loop winv_init)

subsection \<open>The loop of the custom back end\<close>

lemma customStep_trace:
  "trace (customStep msg st) = trace st @ customError msg @ (if once st then [] else [CloseFirst])"
  by (simp add: customStep_def customError_def onceDo_def emit_def Let_def)

lemma customStep_once: "once (customStep msg st)"
  by (simp add: customStep_def onceDo_def emit_def Let_def)

lemma customLoop_keeps_once: "once st \<Longrightarrow> once (customLoop msgs st)"
  by (induction msgs arbitrary: st) (simp_all add: customStep_once)

lemma customLoop_once:
  "once st \<Longrightarrow> trace (customLoop msgs st) = trace st @ concat (map customError msgs)"
  by (induction msgs arbitrary: st) (simp_all add: customStep_trace customStep_once)

lemma customLoop_init:
  "trace (customLoop (msg # msgs) init) = customError msg @ CloseFirst # concat (map customError msgs)"
  by (simp add: customLoop_once customStep_once customStep_trace) (simp add: init_def)

lemma closes_customError: "closes (concat (map customError msgs)) = 0"
  by (induction msgs) (simp_all add: closes_def customError_def)

lemma closes_custom: "closes (trace (customLoop msgs init)) \<le> 1"
proof (cases msgs)
  case Nil
  then show ?thesis by (simp add: init_def closes_def)
next
  case (Cons m ms)
  have "closes (customError m @ [CloseFirst] @ concat (map customError ms)) = 1"
    using closes_customError [of "[m]"] closes_customError [of ms]
    by (simp only: closes_append) (simp add: closes_def)
  then show ?thesis unfolding Cons customLoop_init by simp
qed

section \<open>The claims about the merger\<close>




text \<open>
  C2. When the table construction fails for a combined text, the iteration ends
  with the warning: after the alias registration and the call of NewTable the
  trace has only the logged error, so SetTable is not called and the channel
  is not closed; the active table and the text applied last are unchanged, and
  the loop goes on with the next event.
\<close>

theorem failed_table_keeps_previous:
  assumes "combined ev st \<noteq> lastTable st" and "NewTable x (combined ev st) = Inl e"
  shows "trace (defaultStep x cfg ev st)
           = trace st @ CallParseAliases (combined ev st)
               # aliasWarning (snd (ParseAliases x (combined ev st)))
               @ [Register (fst (ParseAliases x (combined ev st))), CallNewTable (combined ev st),
                  Log ''[WARN] %s'' [S e]] \<and>
         publishedTexts (trace (defaultStep x cfg ev st)) = publishedTexts (trace st) \<and>
         closes (trace (defaultStep x cfg ev st)) = closes (trace st) \<and>
         activeTable (defaultStep x cfg ev st) = activeTable st \<and>
         lastTable (defaultStep x cfg ev st) = lastTable st \<and>
         defaultLoop x cfg (ev # evs) st = defaultLoop x cfg evs (defaultStep x cfg ev st)"
proof -
  have "closes (aliasWarning (snd (ParseAliases x (combined ev st)))) = 0"
    using count_logs [OF aliasWarning_isLog] by (simp add: closes_def)
  then have "closes (trace (defaultStep x cfg ev st)) = closes (trace st)"
    using assms
    by (cases ev) (simp_all add: defaultStep_fail closes_append, simp_all add: closes_def)
  moreover have "publishedTexts (trace (defaultStep x cfg ev st)) = publishedTexts (trace st)"
    using assms by (rule step_texts_fail)
  ultimately show ?thesis
    using assms by (cases ev) (simp_all add: defaultStep_fail)
qed

theorem failed_table_keeps_previous_witness:
  "combined (Svc ''bad'') (watchBackend exampleExt exampleCfg [Svc ''a''])
     \<noteq> lastTable (watchBackend exampleExt exampleCfg [Svc ''a'']) \<and>
   NewTable exampleExt (combined (Svc ''bad'') (watchBackend exampleExt exampleCfg [Svc ''a'']))
     = Inl ''syntax error'' \<and>
   activeTable (defaultStep exampleExt exampleCfg (Svc ''bad'') (watchBackend exampleExt exampleCfg [Svc ''a'']))
     = Some [(''a'' @ [NL], [])] \<and>
   lastTable (defaultStep exampleExt exampleCfg (Svc ''bad'') (watchBackend exampleExt exampleCfg [Svc ''a'']))
     = ''a'' @ [NL]"
  using failed_table_keeps_previous [of "Svc ''bad''" "watchBackend exampleExt exampleCfg [Svc ''a'']"
          exampleExt "''syntax error''" exampleCfg "[]"]
  by (simp add: ex_defs)

text \<open>
  C3. In every run of watchBackend, for every back end, the channel \<open>first\<close> is
  closed at most once. For the back ends other than custom it has been closed
  exactly when a table has been published, and the close comes after the first
  publication and before a second one.
\<close>

theorem first_signalled_once:
  "closes (trace (watchBackend x cfg evs)) \<le> 1 \<and>
   (Backend cfg \<noteq> ''custom'' \<longrightarrow>
      (closes (trace (watchBackend x cfg evs)) = 1
         \<longleftrightarrow> publishedTexts (trace (watchBackend x cfg evs)) \<noteq> []) \<and>
      (publishedTexts (trace (watchBackend x cfg evs)) \<noteq> [] \<longrightarrow>
         length (publishedTexts (beforeFirst (trace (watchBackend x cfg evs)))) = 1))"
proof (cases "Backend cfg = ''custom''")
  case True
  then show ?thesis using closes_custom by (simp add: watchBackend_def)
next
  case False
  then have "winv (watchBackend x cfg evs)" by (rule winv_watch)
  then show ?thesis using False unfolding winv_def by auto
qed

theorem first_signalled_once_witness:
  "Backend exampleCfg \<noteq> ''custom'' \<and>
   publishedTexts (trace (watchBackend exampleExt exampleCfg [Svc ''bad'', Man ''m'', Svc ''b''])) \<noteq> [] \<and>
   closes (trace (watchBackend exampleExt exampleCfg [Svc ''bad'', Man ''m'', Svc ''b''])) = 1 \<and>
   length (publishedTexts (beforeFirst
     (trace (watchBackend exampleExt exampleCfg [Svc ''bad'', Man ''m'', Svc ''b''])))) = 1"
  using first_signalled_once [of exampleExt exampleCfg "[Svc ''bad'', Man ''m'', Svc ''b'']"]
  by (simp add: ex_defs)

text \<open>
  C9. For every combined text that differs from the text applied last, the
  aliases parsed from it are registered before NewTable is called on it, so
  the registration is in the trace also when the construction fails, where
  nothing but the warning follows and the active table is unchanged.
\<close>

theorem aliases_registered_before_table:
  assumes "combined ev st \<noteq> lastTable st"
  shows "\<exists>post. trace (defaultStep x cfg ev st)
                  = trace st @ CallParseAliases (combined ev st)
                      # aliasWarning (snd (ParseAliases x (combined ev st)))
                      @ [Register (fst (ParseAliases x (combined ev st))), CallNewTable (combined ev st)]
                      @ post \<and>
                (\<forall>e. NewTable x (combined ev st) = Inl e \<longrightarrow>
                   post = [Log ''[WARN] %s'' [S e]] \<and>
                   activeTable (defaultStep x cfg ev st) = activeTable st)"
proof (cases "NewTable x (combined ev st)")
  case (Inl e)
  then show ?thesis using assms by (cases ev) (simp_all add: defaultStep_fail)
next
  case (Inr t)
  then show ?thesis using assms by (cases ev) (simp_all add: defaultStep_publish)
qed

theorem aliases_registered_before_table_witness:
  "combined (Svc ''bad'') init \<noteq> lastTable init \<and>
   (\<exists>post. trace (defaultStep exampleExt exampleCfg (Svc ''bad'') init)
              = [CallParseAliases (''bad'' @ [NL]), Register [''www''], CallNewTable (''bad'' @ [NL])] @ post \<and>
            post = [Log ''[WARN] %s'' [S ''syntax error'']])"
  using aliases_registered_before_table [of "Svc ''bad''" init exampleExt exampleCfg]
  by (simp add: ex_defs)

text \<open>
  C10. With the custom back end, the channel \<open>first\<close> is closed at the first
  message of the services stream whatever the message is: a message other than
  OK is logged as an error first, and the close follows; later messages only
  log their errors. Before the first message the channel is open.
\<close>

theorem custom_first_message_signals:
  assumes "Backend cfg = ''custom''" and "svcMessages evs = msg # msgs"
  shows "trace (watchBackend x cfg evs)
           = customError msg @ CloseFirst # concat (map customError msgs) \<and>
         once (watchBackend x cfg evs) \<and>
         \<not> once (watchBackend x cfg [])"
proof -
  have "once (customLoop msgs (customStep msg init))"
    by (simp add: customLoop_keeps_once customStep_once)
  moreover have "\<not> once init" by (simp add: init_def)
  ultimately show ?thesis
    using assms customLoop_init [of msg msgs] by (simp add: watchBackend_def)
qed

theorem custom_first_message_signals_witness:
  "Backend customCfg = ''custom'' \<and>
   svcMessages [Svc ''boom'', Svc ''OK''] = [''boom'', ''OK''] \<and>
   trace (watchBackend exampleExt customCfg [Svc ''boom'', Svc ''OK''])
     = [Log ''[ERROR] error during update from custom back end - %s'' [S ''boom''], CloseFirst]"
  using custom_first_message_signals [of customCfg "[Svc ''boom'', Svc ''OK'']" "''boom''" "[''OK'']" exampleExt]
  by (simp add: ex_defs)

section \<open>The no-route HTML cell\<close>

text \<open>
  C5. For every value received on the no-route HTML stream, SetHTML is called
  with it exactly when it differs from the value stored: a different value
  becomes the stored value, an equal value leaves the state as it was, and the
  loop goes on with the next value.
\<close>

theorem noroute_html_set_if_changed:
  "(SetHTML next \<in> set (emitted (ntrace st) (ntrace (noRouteStep next st))) \<longleftrightarrow> next \<noteq> html st) \<and>
   (next = html st \<longrightarrow> noRouteStep next st = st) \<and>
   (next \<noteq> html st \<longrightarrow> html (noRouteStep next st) = next) \<and>
   watchNoRouteHTML (next # rest) st = watchNoRouteHTML rest (noRouteStep next st)"
  by (simp add: noRouteStep_def emitted_def)

theorem noroute_html_set_if_changed_witness:
  "''<h1>x</h1>'' \<noteq> html ninit \<and>
   html (noRouteStep ''<h1>x</h1>'' ninit) = ''<h1>x</h1>'' \<and>
   '''' = html ninit \<and> noRouteStep '''' ninit = ninit"
  using noroute_html_set_if_changed [of "''<h1>x</h1>''" ninit "[]"]
        noroute_html_set_if_changed [of "''''" ninit "[]"]
  by (simp add: ninit_def)

section \<open>The SNI matcher\<close>

text \<open>
  C7. The matcher of the https+tcp+sni listener holds exactly when the lookup
  of the server name yields a target whose effective protocol is tcp, the proto
  option when present and otherwise the scheme of the URL. The listener gives
  the connection to the TCP+SNI proxy when it holds and to the HTTP proxy
  otherwise.
\<close>

theorem sni_matcher_effective_proto:
  "(lookupHostMatcher LookupHost host \<longleftrightarrow> resolvesToTcp LookupHost host) \<and>
   dispatchHTTPSTCPSNI (lookupHostMatcher LookupHost) host
     = (if resolvesToTcp LookupHost host then TCPSNIProxy else HTTPProxy)"
  by (auto simp: lookupHostMatcher_def resolvesToTcp_def effectiveProto_def dispatchHTTPSTCPSNI_def
           split: option.splits)

theorem sni_matcher_effective_proto_witness:
  "lookupHostMatcher exampleLookup ''db.example.com'' \<and>
   \<not> lookupHostMatcher exampleLookup ''web.example.com'' \<and>
   lookupHostMatcher exampleLookup ''raw.example.com'' \<and>
   dispatchHTTPSTCPSNI (lookupHostMatcher exampleLookup) ''nowhere.example.com'' = HTTPProxy"
  using sni_matcher_effective_proto [of exampleLookup "''db.example.com''"]
        sni_matcher_effective_proto [of exampleLookup "''web.example.com''"]
        sni_matcher_effective_proto [of exampleLookup "''raw.example.com''"]
        sni_matcher_effective_proto [of exampleLookup "''nowhere.example.com''"]
  by (simp add: exampleLookup_def resolvesToTcp_def effectiveProto_def)

section \<open>The formats of logRoutes\<close>




end
